theory Spec2Isabelle
  imports Main
begin

section \<open>BrainFucking Gone: the interpreter of \<^verbatim>\<open>src/bfg.py\<close>\<close>

text \<open>
  The class \<^verbatim>\<open>BrainFuckingGone\<close> is one mutable object; every method below is a function
  from the object (the record \<open>bf\<close>) to the updated object. A raised exception is the
  left summand of a sum, so a method that can raise returns \<open>error + result\<close>.
  Python's unbounded integers are \<open>int\<close>. Program text and input lines are \<open>string\<close>s, so
  their characters are the 8-bit ones, which covers the language's alphabet. Text the
  interpreter writes is kept as the list of its code points, so that every character
  \<^verbatim>\<open>chr\<close> can return has its place in it.
\<close>

subsection \<open>Exceptions and trace lines\<close>

text \<open>
  The two messages of \<^verbatim>\<open>BrainFuckingGoneError\<close> are kept as the arguments of their
  format strings: \<^verbatim>\<open>"Syntax error: dangling '{}' at position {}."\<close> and
  \<^verbatim>\<open>"{} at instruction #{} ('{}'): {}"\<close> with first argument \<^verbatim>\<open>"Segfault"\<close>.
  The other constructors are the built-in exceptions the methods can run into.
\<close>

datatype bfg_message =
    Dangling "char option" int
  | Segfault int "char option" string

datatype error =
    BrainFuckingGoneError bfg_message
  | IndexError
  | TypeError
  | ValueError
  | OverflowError

text \<open>
  The lines \<^verbatim>\<open>dbg\<close> prints on the error stream, again as the arguments of their formats:
  \<^verbatim>\<open>"PC: {:3} ('{}'), PTR: *({:2}) = {:3}"\<close> and
  \<^verbatim>\<open>"Done with: {} instructions, {} steps, {} bytes"\<close>.
\<close>

datatype trace =
    StepLine int char int int
  | DoneWith int int int

subsection \<open>The interpreter object\<close>

text \<open>
  The attributes of the instance, under their own names. The last three fields are the
  world around it: \<open>stdin\<close> holds the lines \<^verbatim>\<open>input()\<close> has still to return (none left is
  end of file), \<open>console\<close> is the text written on the standard output (prompts of
  \<^verbatim>\<open>input\<close> and \<^verbatim>\<open>print\<close>), \<open>stderr\<close> the trace lines. The accumulator \<open>stdout\<close> and the
  console are written text: lists of code points.
\<close>

record bf =
  count :: int
  stdout :: "int list option"
  remain :: "string option"
  ins :: "string option"
  inslen :: int
  keep :: bool
  strict :: bool
  debug :: bool
  buf :: "string option"
  loops :: "int \<rightharpoonup> int"
  sr :: int
  pc :: int
  mem :: "int list"
  memlen :: int
  stdin :: "string list"
  console :: "int list"
  stderr :: "trace list"

definition memmax :: int where
  "memmax = 30 * 1000"

definition minmax :: "int list" where
  "minmax = [0, 255]"

subsection \<open>Python's sequences\<close>

text \<open>
  Subscripts. \<^verbatim>\<open>xs[i]\<close> reads position \<open>i\<close> for \<open>0 \<le> i < len\<close> and position \<open>len + i\<close> for
  \<open>-len \<le> i < 0\<close>; any other subscript raises IndexError. \<open>py_index\<close> is the position
  read, if there is one.
\<close>

definition py_index :: "nat \<Rightarrow> int \<Rightarrow> nat option" where
  "py_index len i =
     (if 0 \<le> i \<and> i < int len then Some (nat i)
      else if i < 0 \<and> - int len \<le> i then Some (nat (int len + i))
      else None)"

definition py_getitem :: "'a list \<Rightarrow> int \<Rightarrow> error + 'a" where
  "py_getitem xs i =
     (case py_index (length xs) i of None \<Rightarrow> Inl IndexError | Some k \<Rightarrow> Inr (xs ! k))"

definition py_setitem :: "'a list \<Rightarrow> int \<Rightarrow> 'a \<Rightarrow> error + 'a list" where
  "py_setitem xs i v =
     (case py_index (length xs) i of None \<Rightarrow> Inl IndexError | Some k \<Rightarrow> Inr (xs[k := v]))"

text \<open>\<^verbatim>\<open>range(start, stop, step)\<close> for the two steps the interpreter uses, 1 and -1.\<close>

definition py_range :: "int \<Rightarrow> int \<Rightarrow> int \<Rightarrow> int list" where
  "py_range start stop step =
     (if 0 < step then [start..stop - 1] else rev [stop + 1..start])"

text \<open>The code points of a string of the model, for writing it.\<close>

definition codes :: "string \<Rightarrow> int list" where
  "codes s = map (\<lambda>c. int (of_char c)) s"

text \<open>
  \<^verbatim>\<open>chr\<close> and \<^verbatim>\<open>ord\<close>. \<^verbatim>\<open>chr(v)\<close> is the character of code point \<open>v\<close>, here the code point
  itself; it raises ValueError outside \<^verbatim>\<open>range(0x110000)\<close>, and OverflowError when \<open>v\<close> does
  not fit the C integer the function converts it to. \<^verbatim>\<open>ord\<close> wants a string of length one
  and raises TypeError otherwise (also on None).
\<close>

definition chr :: "int \<Rightarrow> error + int" where
  "chr v =
     (if v < - 2147483648 \<or> 2147483647 < v then Inl OverflowError
      else if 0 \<le> v \<and> v < 1114112 then Inr v
      else Inl ValueError)"

definition ord :: "string option \<Rightarrow> error + int" where
  "ord s = (case s of Some [c] \<Rightarrow> Inr (int (of_char c)) | _ \<Rightarrow> Inl TypeError)"

subsection \<open>Program buffer and program counter\<close>

text \<open>
  \<^verbatim>\<open>instruction(pc=None)\<close>: \<^verbatim>\<open>pc = pc if pc else self.pc\<close> takes the object's counter
  whenever the argument is falsy, that is None or 0. Then \<^verbatim>\<open>if pc < self.inslen:
  return self.ins[pc]\<close>, and None otherwise. Indexing None raises TypeError.
\<close>

definition instruction :: "bf \<Rightarrow> int option \<Rightarrow> error + char option" where
  "instruction st arg =
     (let p = (case arg of None \<Rightarrow> pc st | Some i \<Rightarrow> if i \<noteq> 0 then i else pc st)
      in if p < inslen st
         then (case ins st of
                 None \<Rightarrow> Inl TypeError
               | Some prog \<Rightarrow> (case py_getitem prog p of Inl e \<Rightarrow> Inl e | Inr c \<Rightarrow> Inr (Some c)))
         else Inr None)"

text \<open>
  \<^verbatim>\<open>jump(to=None)\<close>: \<^verbatim>\<open>self.pc = to if to is not None else self.pc + 1\<close>; returns
  \<^verbatim>\<open>self.pc < self.inslen\<close>.
\<close>

definition jump :: "bf \<Rightarrow> int option \<Rightarrow> bool \<times> bf" where
  "jump st to =
     (let st' = st\<lparr>pc := (case to of Some t \<Rightarrow> t | None \<Rightarrow> pc st + 1)\<rparr>
      in (pc st' < inslen st', st'))"

subsection \<open>Tape\<close>

text \<open>
  \<^verbatim>\<open>value(value=None)\<close> is a getter without argument and a setter with one; the two uses
  are two functions here: \<open>value_get\<close> is \<^verbatim>\<open>self.mem[self.sr]\<close>, \<open>value_set\<close> is
  \<^verbatim>\<open>self.mem[self.sr] = value\<close>.
\<close>

definition value_get :: "bf \<Rightarrow> error + int" where
  "value_get st = py_getitem (mem st) (sr st)"

definition value_set :: "bf \<Rightarrow> int \<Rightarrow> error + bf" where
  "value_set st v =
     (case py_setitem (mem st) (sr st) v of Inl e \<Rightarrow> Inl e | Inr m \<Rightarrow> Inr (st\<lparr>mem := m\<rparr>))"

text \<open>
  \<^verbatim>\<open>segflt\<close>: above the capacity strict mode raises and lazy mode appends one zero cell;
  otherwise a negative pointer raises. The message is formatted from \<^verbatim>\<open>self.pc\<close> and
  \<^verbatim>\<open>self.instruction()\<close>.
\<close>

definition segflt :: "bf \<Rightarrow> error + bf" where
  "segflt st =
     (if sr st \<ge> memlen st then
        (if strict st then
           (case instruction st None of
              Inl e \<Rightarrow> Inl e
            | Inr c \<Rightarrow> Inl (BrainFuckingGoneError (Segfault (pc st) c
                 ''data pointer value above the maximum (strict mode: on)'')))
         else Inr (st\<lparr>mem := mem st @ [0], memlen := memlen st + 1\<rparr>))
      else if sr st < 0 then
        (case instruction st None of
           Inl e \<Rightarrow> Inl e
         | Inr c \<Rightarrow> Inl (BrainFuckingGoneError (Segfault (pc st) c
              ''negative data pointer value'')))
      else Inr st)"

text \<open>\<^verbatim>\<open>ptr\<close>: \<^verbatim>\<open><\<close> decrements the pointer, \<^verbatim>\<open>>\<close> increments it, then \<^verbatim>\<open>segflt\<close>.\<close>

definition ptr :: "bf \<Rightarrow> error + bf" where
  "ptr st =
     (case instruction st None of
        Inl e \<Rightarrow> Inl e
      | Inr c \<Rightarrow>
          segflt (if c = Some (CHR ''<'') then st\<lparr>sr := sr st - 1\<rparr>
                  else if c = Some (CHR ''>'') then st\<lparr>sr := sr st + 1\<rparr>
                  else st))"

text \<open>
  \<^verbatim>\<open>byte\<close>: the new value is the cell minus one on \<^verbatim>\<open>-\<close>, plus one on \<^verbatim>\<open>+\<close>; below
  \<^verbatim>\<open>minmax[0]\<close> it becomes \<^verbatim>\<open>minmax[1] - abs(newValue) + 1\<close>, above \<^verbatim>\<open>minmax[1]\<close> it becomes
  \<^verbatim>\<open>minmax[0] + abs(newValue) - 1\<close>.
\<close>

definition overflow :: "int \<Rightarrow> int" where
  "overflow newValue =
     (if newValue < minmax ! 0 then minmax ! 1 - \<bar>newValue\<bar> + 1
      else if newValue > minmax ! 1 then minmax ! 0 + \<bar>newValue\<bar> - 1
      else newValue)"

definition byte :: "bf \<Rightarrow> error + bf" where
  "byte st =
     (case value_get st of
        Inl e \<Rightarrow> Inl e
      | Inr v \<Rightarrow>
         (case instruction st None of
            Inl e \<Rightarrow> Inl e
          | Inr c \<Rightarrow>
              value_set st (overflow
                (if c = Some (CHR ''-'') then v - 1
                 else if c = Some (CHR ''+'') then v + 1
                 else v))))"

subsection \<open>Loop table\<close>

text \<open>
  The \<^verbatim>\<open>for i in range(start, end, step)\<close> of \<^verbatim>\<open>registerLoop\<close>, over the positions still
  to visit: a symbol equal to the current one raises the nesting counter, the opposite
  bracket \<open>char\<close> lowers a positive counter and is the sibling at counter 0 (the
  \<^verbatim>\<open>break\<close>). The result None is the loop running to its end.
\<close>

fun scan :: "bf \<Rightarrow> char \<Rightarrow> int list \<Rightarrow> int \<Rightarrow> error + int option" where
  "scan st char [] cnt = Inr None"
| "scan st char (i # rest) cnt =
     (case instruction st (Some i) of
        Inl e \<Rightarrow> Inl e
      | Inr a \<Rightarrow>
         (case instruction st None of
            Inl e \<Rightarrow> Inl e
          | Inr cur \<Rightarrow>
              if a = cur then scan st char rest (cnt + 1)
              else if a = Some char then
                (if cnt > 0 then scan st char rest (cnt - 1) else Inr (Some i))
              else scan st char rest cnt))"

text \<open>
  \<^verbatim>\<open>registerLoop\<close>: \<^verbatim>\<open>start = self.pc+1\<close> in both directions, \<^verbatim>\<open>end\<close> is 0 and \<^verbatim>\<open>step\<close> is
  -1 at a closing bracket, \<^verbatim>\<open>end\<close> is \<^verbatim>\<open>self.inslen\<close> and \<^verbatim>\<open>step\<close> is 1 otherwise. Without
  sibling it raises; with one it stores \<^verbatim>\<open>loops[pc] = sibling\<close>, then
  \<^verbatim>\<open>loops[sibling] = pc\<close>.
\<close>

definition registerLoop :: "bf \<Rightarrow> error + bf" where
  "registerLoop st =
     (case instruction st None of
        Inl e \<Rightarrow> Inl e
      | Inr cur \<Rightarrow>
         (let isEnd = (cur = Some (CHR '']''));
              char = (if isEnd then CHR ''['' else CHR '']'');
              start = pc st + 1;
              stop = (if isEnd then 0 else inslen st);
              step = (if isEnd then - 1 else 1)
          in case scan st char (py_range start stop step) 0 of
               Inl e \<Rightarrow> Inl e
             | Inr None \<Rightarrow> Inl (BrainFuckingGoneError (Dangling cur (pc st)))
             | Inr (Some sibling) \<Rightarrow>
                 Inr (st\<lparr>loops := ((loops st)(pc st \<mapsto> sibling))(sibling \<mapsto> pc st)\<rparr>)))"

text \<open>
  \<^verbatim>\<open>loop\<close>: registers the bracket when \<^verbatim>\<open>loops.get(pc)\<close> is None, then jumps to
  \<^verbatim>\<open>loops.get(pc)\<close> unless exactly one of "the cell is non-zero" and "the symbol is the
  closing bracket" holds. The result of \<^verbatim>\<open>jump\<close> is dropped.
\<close>

definition loop :: "bf \<Rightarrow> error + bf" where
  "loop st =
     (case (if loops st (pc st) = None then registerLoop st else Inr st) of
        Inl e \<Rightarrow> Inl e
      | Inr st1 \<Rightarrow>
         (case value_get st1 of
            Inl e \<Rightarrow> Inl e
          | Inr v \<Rightarrow>
             (case instruction st1 None of
                Inl e \<Rightarrow> Inl e
              | Inr c \<Rightarrow>
                  if \<not> ((v \<noteq> 0) \<noteq> (c = Some (CHR '']'')))
                  then Inr (snd (jump st1 (loops st1 (pc st1))))
                  else Inr st1)))"

subsection \<open>Input and output\<close>

text \<open>
  \<^verbatim>\<open>input(prompt)\<close> writes the prompt, then returns the next line, or raises EOFError
  (the result None) when there is none.
\<close>

definition input :: "string \<Rightarrow> bf \<Rightarrow> string option \<times> bf" where
  "input prompt st =
     (let st' = st\<lparr>console := console st @ codes prompt\<rparr>
      in case stdin st' of
           [] \<Rightarrow> (None, st')
         | l # ls \<Rightarrow> (Some l, st'\<lparr>stdin := ls\<rparr>))"

text \<open>
  The branch of \<^verbatim>\<open>inp\<close> for a remainder that is not None:
  \<^verbatim>\<open>self.buf = self.remain[0]\<close>, \<^verbatim>\<open>self.remain = self.remain[1:]\<close>, and the remainder is
  None again once it is empty. Indexing an empty remainder raises IndexError, which the
  \<^verbatim>\<open>except EOFError\<close> of \<^verbatim>\<open>inp\<close> does not catch.
\<close>

definition inp_remain :: "string \<Rightarrow> bf \<Rightarrow> error + bool \<times> bf" where
  "inp_remain r st =
     (case py_getitem r 0 of
        Inl e \<Rightarrow> Inl e
      | Inr c \<Rightarrow>
          Inr (True, st\<lparr>buf := Some [c],
                         remain := (if length (tl r) = 0 then None else Some (tl r))\<rparr>))"

text \<open>
  \<^verbatim>\<open>inp(prompt, isInstruction)\<close>. With \<^verbatim>\<open>isInstruction\<close> the line read is the buffer.
  Otherwise a character is taken from the remainder; without remainder a line is read
  (by \<^verbatim>\<open>input()\<close>, without prompt) and \<^verbatim>\<open>self.inp()\<close> is called again, which then finds the
  remainder set and takes the branch above. EOFError gives False.
\<close>

definition inp :: "string \<Rightarrow> bool \<Rightarrow> bf \<Rightarrow> error + bool \<times> bf" where
  "inp prompt isInstruction st =
     (if isInstruction then
        (case input prompt st of
           (None, st') \<Rightarrow> Inr (False, st')
         | (Some l, st') \<Rightarrow> Inr (True, st'\<lparr>buf := Some l\<rparr>))
      else
        (case remain st of
           Some r \<Rightarrow> inp_remain r st
         | None \<Rightarrow>
            (case input [] st of
               (None, st') \<Rightarrow> Inr (False, st')
             | (Some l, st') \<Rightarrow> inp_remain l (st'\<lparr>remain := Some l\<rparr>))))"

text \<open>
  \<^verbatim>\<open>inout\<close>: on \<^verbatim>\<open>.\<close> the character of the cell goes to the accumulator \<^verbatim>\<open>self.stdout\<close>
  when debugging with an accumulator, and is printed otherwise (followed by a newline
  when debugging). On \<^verbatim>\<open>,\<close> a failed \<^verbatim>\<open>inp\<close> returns True, the signal to stop; otherwise
  the cell takes \<^verbatim>\<open>ord(self.buf)\<close>.
\<close>

definition inout :: "bf \<Rightarrow> error + bool \<times> bf" where
  "inout st =
     (case instruction st None of
        Inl e \<Rightarrow> Inl e
      | Inr c \<Rightarrow>
          if c = Some (CHR ''.'') then
            (case value_get st of
               Inl e \<Rightarrow> Inl e
             | Inr v \<Rightarrow>
                (case chr v of
                   Inl e \<Rightarrow> Inl e
                 | Inr output \<Rightarrow>
                    (case (if debug st then stdout st else None) of
                       Some acc \<Rightarrow> Inr (False, st\<lparr>stdout := Some (acc @ [output])\<rparr>)
                     | None \<Rightarrow>
                         Inr (False, st\<lparr>console := console st @ [output] @
                            codes (if \<not> debug st then [] else [CHR 0x0A])\<rparr>))))
          else if c = Some (CHR '','') then
            (case inp [CHR 0x0A, CHR ''?'', CHR ''>'', CHR '' ''] False st of
               Inl e \<Rightarrow> Inl e
             | Inr (ok, st1) \<Rightarrow>
                 if \<not> ok then Inr (True, st1)
                 else (case ord (buf st1) of
                         Inl e \<Rightarrow> Inl e
                       | Inr v \<Rightarrow>
                          (case value_set st1 v of
                             Inl e \<Rightarrow> Inl e
                           | Inr st2 \<Rightarrow> Inr (False, st2\<lparr>buf := None\<rparr>))))
          else Inr (False, st))"

subsection \<open>Dispatcher\<close>

text \<open>
  \<^verbatim>\<open>ignoreUntil\<close>, the handler of the comment symbols, with \<open>until\<close> the newline:
  \<^verbatim>\<open>while(self.instruction() != until and self.jump()): pass\<close>. Each round moves the
  counter one step towards \<^verbatim>\<open>inslen\<close>, which bounds the loop.
\<close>

function ignoreUntil :: "bf \<Rightarrow> char \<Rightarrow> error + bf" where
  "ignoreUntil st until =
     (case instruction st None of
        Inl e \<Rightarrow> Inl e
      | Inr c \<Rightarrow>
          if c \<noteq> Some until then
            (if fst (jump st None)
             then ignoreUntil (snd (jump st None)) until
             else Inr (snd (jump st None)))
          else Inr st)"
  by pat_completeness auto
termination
  by (relation "measure (\<lambda>(st, until). nat (inslen st - pc st))") (auto simp: jump_def Let_def)

declare ignoreUntil.simps [simp del]

text \<open>
  \<^verbatim>\<open>translate\<close>: the handler of the symbol at the counter, looked up in \<^verbatim>\<open>self.action\<close>
  (brackets \<^verbatim>\<open>loop\<close>, angles \<^verbatim>\<open>ptr\<close>, signs \<^verbatim>\<open>byte\<close>, comma and dot \<^verbatim>\<open>inout\<close>, hash and
  newline \<^verbatim>\<open>ignoreUntil\<close>); any other symbol, and None, has no handler. The result is
  what the handler returns as a truth value: only \<^verbatim>\<open>inout\<close> can return True.
\<close>

definition translate :: "bf \<Rightarrow> error + bool \<times> bf" where
  "translate st =
     (case instruction st None of
        Inl e \<Rightarrow> Inl e
      | Inr None \<Rightarrow> Inr (False, st)
      | Inr (Some c) \<Rightarrow>
          if c = CHR ''['' \<or> c = CHR '']'' then
            (case loop st of Inl e \<Rightarrow> Inl e | Inr st' \<Rightarrow> Inr (False, st'))
          else if c = CHR ''<'' \<or> c = CHR ''>'' then
            (case ptr st of Inl e \<Rightarrow> Inl e | Inr st' \<Rightarrow> Inr (False, st'))
          else if c = CHR ''-'' \<or> c = CHR ''+'' then
            (case byte st of Inl e \<Rightarrow> Inl e | Inr st' \<Rightarrow> Inr (False, st'))
          else if c = CHR '','' \<or> c = CHR ''.'' then inout st
          else if c = CHR ''#'' \<or> c = CHR 0x0A then
            (case ignoreUntil st (CHR 0x0A) of Inl e \<Rightarrow> Inl e | Inr st' \<Rightarrow> Inr (False, st'))
          else Inr (False, st))"

text \<open>
  \<^verbatim>\<open>dbg(report)\<close>: the step counter goes up on every call; when debugging, a report
  prints the summary, and otherwise the step line is printed if there is a symbol at the
  counter.
\<close>

definition dbg :: "bool \<Rightarrow> bf \<Rightarrow> error + bf" where
  "dbg report st =
     (let st1 = st\<lparr>count := count st + 1\<rparr>
      in if debug st1 then
           (if report then
              Inr (st1\<lparr>stderr := stderr st1 @ [DoneWith (inslen st1) (count st1) (memlen st1)]\<rparr>)
            else
              (case instruction st1 None of
                 Inl e \<Rightarrow> Inl e
               | Inr None \<Rightarrow> Inr st1
               | Inr (Some c) \<Rightarrow>
                  (case value_get st1 of
                     Inl e \<Rightarrow> Inl e
                   | Inr v \<Rightarrow>
                       Inr (st1\<lparr>stderr := stderr st1 @ [StepLine (pc st1) c (sr st1) v]\<rparr>))))
         else Inr st1)"

text \<open>
  \<^verbatim>\<open>reset(force)\<close>: the line buffer is always dropped; counter, program, loop table,
  pointer, program counter and tape start afresh when forced or not in persistent mode.
\<close>

definition reset :: "bool \<Rightarrow> bf \<Rightarrow> bf" where
  "reset force st =
     (let st1 = st\<lparr>buf := None\<rparr>
      in if force \<or> \<not> keep st1 then
           (let st2 = st1\<lparr>count := 0, ins := None, loops := Map.empty, sr := 0, pc := 0,
                           mem := replicate (if \<not> strict st1 then 1 else nat memmax) 0,
                           inslen := 0\<rparr>
            in st2\<lparr>memlen := (if strict st2 then memmax else int (length (mem st2)))\<rparr>)
         else st1)"

text \<open>
  The \<^verbatim>\<open>while(True)\<close> of \<^verbatim>\<open>execute\<close>:
  \<^verbatim>\<open>if self.translate() or self.dbg() or not self.jump(): break\<close>. A program can loop
  forever, so the rounds are counted down from a bound; None is the bound reached.
\<close>

fun execute_loop :: "nat \<Rightarrow> bf \<Rightarrow> (error + bf) option" where
  "execute_loop 0 st = None"
| "execute_loop (Suc n) st =
     (case translate st of
        Inl e \<Rightarrow> Some (Inl e)
      | Inr (halt, st1) \<Rightarrow>
          if halt then Some (Inr st1)
          else (case dbg False st1 of
                  Inl e \<Rightarrow> Some (Inl e)
                | Inr st2 \<Rightarrow>
                    if \<not> fst (jump st2 None) then Some (Inr (snd (jump st2 None)))
                    else execute_loop n (snd (jump st2 None))))"

text \<open>
  \<^verbatim>\<open>execute(shell=False)\<close>: the loop, then \<^verbatim>\<open>if not shell: self.dbg(True)\<close>, then
  \<^verbatim>\<open>self.reset()\<close>.
\<close>

definition execute :: "nat \<Rightarrow> bool \<Rightarrow> bf \<Rightarrow> (error + bf) option" where
  "execute fuel shell st =
     (case execute_loop fuel st of
        None \<Rightarrow> None
      | Some (Inl e) \<Rightarrow> Some (Inl e)
      | Some (Inr st1) \<Rightarrow>
         (case (if \<not> shell then dbg True st1 else Inr st1) of
            Inl e \<Rightarrow> Some (Inl e)
          | Inr st2 \<Rightarrow> Some (Inr (reset False st2))))"

subsection \<open>Session\<close>

text \<open>The object \<^verbatim>\<open>__init__\<close> builds, in a world with the given input lines.\<close>

definition init :: "string list \<Rightarrow> bf" where
  "init lines =
     \<lparr>count = 0, stdout = None, remain = None, ins = None, inslen = 0, keep = False,
      strict = False, debug = False, buf = None, loops = Map.empty, sr = 0, pc = 0,
      mem = [], memlen = 0, stdin = lines, console = [], stderr = []\<rparr>"

text \<open>
  The start of \<^verbatim>\<open>run\<close>: with \<open>shell\<close> for "no file given", the flags are
  \<^verbatim>\<open>self.debug = debug or shell\<close>, \<^verbatim>\<open>self.stdout = None if not self.debug or shell else ""\<close>,
  \<^verbatim>\<open>self.keep = persistent or shell\<close>; then \<^verbatim>\<open>self.reset(True)\<close> and \<^verbatim>\<open>self.ins = ""\<close>.
\<close>

definition run_start :: "bool \<Rightarrow> bool \<Rightarrow> bool \<Rightarrow> bool \<Rightarrow> bf \<Rightarrow> bf" where
  "run_start shell persistent dbgflag strictflag st =
     (let st1 = st\<lparr>strict := strictflag, debug := (dbgflag \<or> shell)\<rparr>;
          st2 = st1\<lparr>stdout := (if \<not> debug st1 \<or> shell then None else Some [])\<rparr>;
          st3 = st2\<lparr>keep := (persistent \<or> shell)\<rparr>
      in (reset True st3)\<lparr>ins := Some []\<rparr>)"

text \<open>
  A batch round of \<^verbatim>\<open>run\<close> up to its call of \<^verbatim>\<open>execute\<close>: \<^verbatim>\<open>self.ins = self.script(files)\<close>,
  where \<^verbatim>\<open>script\<close> returns the text of the files without their comments and sets
  \<^verbatim>\<open>self.inslen\<close> to its length. The text is the parameter \<open>prog\<close>.
\<close>

definition batch_start :: "bool \<Rightarrow> bool \<Rightarrow> bool \<Rightarrow> string \<Rightarrow> bf \<Rightarrow> bf" where
  "batch_start persistent dbgflag strictflag prog st =
     (run_start False persistent dbgflag strictflag st)
       \<lparr>ins := Some prog, inslen := int (length prog)\<rparr>"

text \<open>
  \<^verbatim>\<open>shell\<close>: reads a line as instructions; the program is the old one (the empty string
  for None) followed by the line, \<^verbatim>\<open>inslen\<close> grows by the line's length, and the buffer
  is dropped. At end of file the result is None.
\<close>

definition shell :: "bf \<Rightarrow> error + string option \<times> bf" where
  "shell st =
     (case inp '' > '' True st of
        Inl e \<Rightarrow> Inl e
      | Inr (ok, st1) \<Rightarrow>
          if ok then
            (let line = (case buf st1 of Some b \<Rightarrow> b | None \<Rightarrow> []);
                 prog = (case ins st1 of Some p \<Rightarrow> p | None \<Rightarrow> []) @ line
             in Inr (Some prog, st1\<lparr>inslen := inslen st1 + int (length line), buf := None\<rparr>))
          else Inr (None, st1))"

text \<open>
  The first \<open>k\<close> rounds of the \<^verbatim>\<open>while\<close> of \<^verbatim>\<open>run\<close> in shell mode (the loop itself never
  ends): \<^verbatim>\<open>self.ins = self.shell()\<close>, and \<^verbatim>\<open>self.execute()\<close> if that is not None. \<open>fuel\<close>
  bounds each execution.
\<close>

fun run_shell :: "nat \<Rightarrow> nat \<Rightarrow> bf \<Rightarrow> (error + bf) option" where
  "run_shell 0 fuel st = Some (Inr st)"
| "run_shell (Suc k) fuel st =
     (case shell st of
        Inl e \<Rightarrow> Some (Inl e)
      | Inr (prog, st1) \<Rightarrow>
         (case prog of
            None \<Rightarrow> run_shell k fuel (st1\<lparr>ins := None\<rparr>)
          | Some p \<Rightarrow>
             (case execute fuel False (st1\<lparr>ins := Some p\<rparr>) of
                None \<Rightarrow> None
              | Some (Inl e) \<Rightarrow> Some (Inl e)
              | Some (Inr st2) \<Rightarrow> run_shell k fuel st2)))"

subsection \<open>Well-formed tapes\<close>

text \<open>
  The pointer is an index of the tape, and \<^verbatim>\<open>memlen\<close> is the tape's length (the attribute
  exists to "reduce len() calls").
\<close>

definition tape_ok :: "bf \<Rightarrow> bool" where
  "tape_ok st = (0 \<le> sr st \<and> sr st < memlen st \<and> memlen st = int (length (mem st)))"

section \<open>Properties\<close>

subsection \<open>Evaluation\<close>

text \<open>The definitions a concrete run unfolds.\<close>

lemmas bf_defs = instruction_def jump_def value_get_def value_set_def segflt_def ptr_def
  overflow_def byte_def registerLoop_def loop_def input_def inp_remain_def inp_def inout_def
  translate_def dbg_def reset_def execute_def init_def run_start_def batch_start_def shell_def
  py_index_def py_getitem_def py_setitem_def py_range_def codes_def chr_def ord_def minmax_def memmax_def Let_def

subsection \<open>Cells\<close>

lemma py_setitem_getitem:
  "py_getitem xs i = Inr v \<Longrightarrow>
   \<exists>ys. py_setitem xs i w = Inr ys \<and> py_getitem ys i = Inr w \<and> length ys = length xs"
  by (auto simp: py_getitem_def py_setitem_def py_index_def split: if_splits)

lemma value_set_get:
  assumes "value_get st = Inr v"
  shows "\<exists>ys. value_set st w = Inr (st\<lparr>mem := ys\<rparr>) \<and> value_get (st\<lparr>mem := ys\<rparr>) = Inr w
           \<and> length ys = length (mem st)"
proof -
  from assms obtain ys where ys: "py_setitem (mem st) (sr st) w = Inr ys"
      "py_getitem ys (sr st) = Inr w" "length ys = length (mem st)"
    unfolding value_get_def using py_setitem_getitem [of "mem st" "sr st" v w] by auto
  then show ?thesis
    by (intro exI [of _ ys]) (simp add: value_set_def value_get_def)
qed

text \<open>
  Claim C2. On a readable cell holding \<open>v\<close>, \<^verbatim>\<open>byte\<close> at a \<^verbatim>\<open>-\<close> or \<^verbatim>\<open>+\<close> succeeds, leaves
  the pointer alone and stores the asymmetric wrap-around of the new value \<open>v - 1\<close> or
  \<open>v + 1\<close>: below 0 it is \<open>255 - |newValue| + 1\<close>, above 255 it is \<open>0 + |newValue| - 1\<close>.
  So decrementing 0 gives 255, and incrementing 255 gives 255, not 0.
\<close>

theorem byte_wraparound:
  assumes "value_get st = Inr v"
    and "instruction st None = Inr (Some c)"
    and "c = CHR ''-'' \<or> c = CHR ''+''"
  shows "\<exists>st'. byte st = Inr st' \<and> sr st' = sr st \<and>
           value_get st' = Inr
             (let newValue = (if c = CHR ''-'' then v - 1 else v + 1)
              in if newValue < 0 then 255 - \<bar>newValue\<bar> + 1
                 else if newValue > 255 then 0 + \<bar>newValue\<bar> - 1
                 else newValue) \<and>
           (c = CHR ''-'' \<and> v = 0 \<longrightarrow> value_get st' = Inr 255) \<and>
           (c = CHR ''+'' \<and> v = 255 \<longrightarrow> value_get st' = Inr 255)"
proof -
  let ?n = "if c = CHR ''-'' then v - 1 else v + 1"
  from assms have b: "byte st = value_set st (overflow ?n)"
    by (auto simp: byte_def)
  from value_set_get [OF assms(1), of "overflow ?n"] obtain ys where
    st': "value_set st (overflow ?n) = Inr (st\<lparr>mem := ys\<rparr>)"
      "value_get (st\<lparr>mem := ys\<rparr>) = Inr (overflow ?n)"
    by auto
  let ?st' = "st\<lparr>mem := ys\<rparr>"
  have 1: "byte st = Inr ?st'"
    using b st'(1) by simp
  have 2: "value_get ?st' = Inr
             (let newValue = ?n
              in if newValue < 0 then 255 - \<bar>newValue\<bar> + 1
                 else if newValue > 255 then 0 + \<bar>newValue\<bar> - 1
                 else newValue)"
    using st'(2) by (simp add: overflow_def minmax_def Let_def)
  have 3: "c = CHR ''-'' \<and> v = 0 \<longrightarrow> value_get ?st' = Inr 255"
    using st'(2) by (simp add: overflow_def minmax_def)
  have 4: "c = CHR ''+'' \<and> v = 255 \<longrightarrow> value_get ?st' = Inr 255"
    using st'(2) by (simp add: overflow_def minmax_def)
  have 5: "sr ?st' = sr st" by simp
  from 1 2 3 4 5 show ?thesis
    by (intro exI [of _ ?st'] conjI)
qed

theorem byte_wraparound_witness:
  "(\<exists>st'. byte (batch_start False False False ''-'' (init [])) = Inr st' \<and> value_get st' = Inr 255)
   \<and> (\<exists>st'. byte ((batch_start False False False ''+'' (init []))\<lparr>mem := [255]\<rparr>) = Inr st'
          \<and> value_get st' = Inr 255)"
proof -
  let ?a = "batch_start False False False ''-'' (init [])"
  let ?b = "(batch_start False False False ''+'' (init []))\<lparr>mem := [255]\<rparr>"
  have a: "value_get ?a = Inr 0" "instruction ?a None = Inr (Some CHR ''-'')"
    by (simp_all add: bf_defs)
  have b: "value_get ?b = Inr 255" "instruction ?b None = Inr (Some CHR ''+'')"
    by (simp_all add: bf_defs)
  from byte_wraparound [OF a] have "\<exists>st'. byte ?a = Inr st' \<and> value_get st' = Inr 255"
    by blast
  moreover from byte_wraparound [OF b] have "\<exists>st'. byte ?b = Inr st' \<and> value_get st' = Inr 255"
    by blast
  ultimately show ?thesis by simp
qed

subsection \<open>Instruction lookup\<close>

text \<open>
  Claim C4. With the program \<^verbatim>\<open>ab\<close> and the counter at 1, the lookup of index 0 returns the
  symbol at the counter, \<^verbatim>\<open>b\<close>, not the symbol \<^verbatim>\<open>a\<close> at position 0: the argument 0 is
  falsy and is replaced by the counter. The index -1 returns the last symbol instead of
  none, and the index -3 raises IndexError.
\<close>

theorem instruction_index_zero:
  "instruction ((batch_start False False False ''ab'' (init []))\<lparr>pc := 1\<rparr>) (Some 0)
     = Inr (Some CHR ''b'')
   \<and> instruction ((batch_start False False False ''ab'' (init []))\<lparr>pc := 1\<rparr>) (Some (- 1))
     = Inr (Some CHR ''b'')
   \<and> instruction ((batch_start False False False ''ab'' (init []))\<lparr>pc := 1\<rparr>) (Some (- 3))
     = Inl IndexError"
  by (simp add: bf_defs)

text \<open>
  Where the lookup does return the symbol at the index: from 1 up to the length; from
  the length on it returns none; without argument it reads at the counter.
\<close>

lemma instruction_in_range:
  assumes "ins st = Some prog" and "inslen st = int (length prog)"
  shows "1 \<le> i \<and> i < inslen st \<longrightarrow> instruction st (Some i) = Inr (Some (prog ! nat i))"
    and "inslen st \<le> i \<and> i \<noteq> 0 \<longrightarrow> instruction st (Some i) = Inr None"
    and "0 \<le> pc st \<and> pc st < inslen st \<longrightarrow> instruction st None = Inr (Some (prog ! nat (pc st)))"
  using assms by (auto simp: instruction_def py_getitem_def py_index_def Let_def)

subsection \<open>Loop table\<close>

text \<open>
  What the scan returns is one of the positions it was given, and the symbol there is
  the bracket looked for.
\<close>

lemma scan_found:
  "scan st ch is cnt = Inr (Some i) \<Longrightarrow> i \<in> set is \<and> instruction st (Some i) = Inr (Some ch)"
proof (induction "is" arbitrary: cnt)
  case Nil
  then show ?case by simp
next
  case (Cons j rest)
  from Cons.prems obtain a cur where
    a: "instruction st (Some j) = Inr a" and cur: "instruction st None = Inr cur"
    by (auto split: sum.splits)
  show ?case
  proof (cases "a = cur")
    case True
    with Cons.prems a cur have "scan st ch rest (cnt + 1) = Inr (Some i)" by simp
    from Cons.IH [OF this] show ?thesis by simp
  next
    case ne: False
    show ?thesis
    proof (cases "a = Some ch")
      case False
      with ne Cons.prems a cur have "scan st ch rest cnt = Inr (Some i)" by simp
      from Cons.IH [OF this] show ?thesis by simp
    next
      case True
      show ?thesis
      proof (cases "cnt > 0")
        case True
        with \<open>a = Some ch\<close> ne Cons.prems a cur
        have "scan st ch rest (cnt - 1) = Inr (Some i)" by simp
        from Cons.IH [OF this] show ?thesis by simp
      next
        case False
        with \<open>a = Some ch\<close> ne Cons.prems a cur have "i = j" by simp
        with a \<open>a = Some ch\<close> show ?thesis by simp
      qed
    qed
  qed
qed

text \<open>
  At an opening bracket the positions scanned are \<open>pc + 1\<close> up to the end of the program,
  so the sibling recorded is a closing bracket strictly after the counter.
\<close>

lemma registerLoop_opening:
  assumes "instruction st None = Inr (Some CHR ''['')" and "registerLoop st = Inr st'"
  shows "\<exists>m. loops st' (pc st) = Some m \<and> loops st' m = Some (pc st) \<and> pc st < m
           \<and> m < inslen st \<and> instruction st (Some m) = Inr (Some CHR '']'')"
proof -
  from assms obtain sib where
    s: "scan st CHR '']'' (py_range (pc st + 1) (inslen st) 1) 0 = Inr (Some sib)"
    and st': "st' = st\<lparr>loops := ((loops st)(pc st \<mapsto> sib))(sib \<mapsto> pc st)\<rparr>"
    by (auto simp: registerLoop_def Let_def split: sum.splits option.splits)
  from scan_found [OF s] have "pc st < sib" "sib < inslen st"
      "instruction st (Some sib) = Inr (Some CHR '']'')"
    by (auto simp: py_range_def)
  with st' show ?thesis by (intro exI [of _ sib]) simp
qed

text \<open>
  At a closing bracket the positions scanned are \<open>pc + 1\<close> down to 1: the sibling recorded
  is an opening bracket, at a position that can be \<open>pc + 1\<close> and is never 0.
\<close>

lemma registerLoop_closing:
  assumes "instruction st None = Inr (Some CHR '']'')" and "registerLoop st = Inr st'"
  shows "\<exists>m. loops st' m = Some (pc st) \<and> 1 \<le> m \<and> m \<le> pc st + 1
           \<and> instruction st (Some m) = Inr (Some CHR ''['')"
proof -
  from assms obtain sib where
    s: "scan st CHR ''['' (py_range (pc st + 1) 0 (- 1)) 0 = Inr (Some sib)"
    and st': "st' = st\<lparr>loops := ((loops st)(pc st \<mapsto> sib))(sib \<mapsto> pc st)\<rparr>"
    by (auto simp: registerLoop_def Let_def split: sum.splits option.splits)
  from scan_found [OF s] have "1 \<le> sib" "sib \<le> pc st + 1"
      "instruction st (Some sib) = Inr (Some CHR ''['')"
    by (auto simp: py_range_def)
  with st' show ?thesis by (intro exI [of _ sib]) simp
qed

text \<open>
  Claim C1. On the program \<^verbatim>\<open>][\<close> with the counter at the closing bracket at position 0,
  \<^verbatim>\<open>registerLoop\<close> succeeds and records position 1 as the match: the opening bracket
  after the closing one, not one before it. (The half of the claim about opening brackets
  is \<open>registerLoop_opening\<close>.)
\<close>

theorem registerLoop_closing_forward:
  "instruction (batch_start False False False '']['' (init [])) None = Inr (Some CHR '']'')
   \<and> pc (batch_start False False False '']['' (init [])) = 0
   \<and> (\<exists>st'. registerLoop (batch_start False False False '']['' (init [])) = Inr st'
          \<and> loops st' 0 = Some 1 \<and> loops st' 1 = Some 0
          \<and> instruction st' (Some 1) = Inr (Some CHR ''[''))"
  by (simp add: bf_defs)

text \<open>
  Frames: \<^verbatim>\<open>registerLoop\<close> changes the loop table only, \<^verbatim>\<open>dbg\<close> the step counter and the
  trace only.
\<close>

lemma registerLoop_frame:
  assumes "registerLoop st = Inr st'"
  shows "\<exists>sib. st' = st\<lparr>loops := ((loops st)(pc st \<mapsto> sib))(sib \<mapsto> pc st)\<rparr>"
  using assms by (auto simp: registerLoop_def Let_def split: sum.splits option.splits)

lemma dbg_frame:
  assumes "dbg r st = Inr st'"
  shows "\<exists>k tr. st' = st\<lparr>count := k, stderr := tr\<rparr>"
proof -
  have "st' = st\<lparr>count := count st', stderr := stderr st'\<rparr>"
    using assms
    by (auto simp: dbg_def Let_def split: if_splits sum.splits option.splits)
  then show ?thesis by blast
qed



text \<open>
  Claim C7. In the shell, after the three lines \<^verbatim>\<open>+][\<close>, the empty line and \<^verbatim>\<open>[-]\<close>, the
  run has ended without error and the loop table maps position 1 to 2 but position 2 to
  5: it is not symmetric. The closing bracket at 1 was paired with the opening bracket
  after it; the empty line moved the counter one past the end of the buffer, so the
  opening bracket at 3 was skipped; the scan back from 5 then took the bracket at 2 again
  and overwrote its entry.
\<close>

theorem loop_table_asymmetric:
  "\<exists>st'. run_shell 3 (Suc (Suc n))
            (run_start True False False False (init [''+]['', '''', ''[-]''])) = Some (Inr st')
     \<and> ins st' = Some ''+][[-]'' \<and> loops st' 1 = Some 2 \<and> loops st' 2 = Some 5"
  by (simp add: bf_defs numeral_3_eq_3 upto.simps)

theorem loop_table_asymmetric_witness:
  "\<exists>st'. run_shell 3 (Suc (Suc 0))
            (run_start True False False False (init [''+]['', [], ''[-]''])) = Some (Inr st')
     \<and> loops st' 1 = Some 2 \<and> loops st' 2 = Some 5 \<and> loops st' 2 \<noteq> Some 1"
proof -
  from loop_table_asymmetric [of 0] obtain st' where
    r: "run_shell 3 (Suc (Suc 0))
          (run_start True False False False (init [''+]['', [], ''[-]''])) = Some (Inr st')"
    and l: "loops st' 1 = Some 2" "loops st' 2 = Some 5"
    by (elim exE conjE)
  from l(2) have "loops st' 2 \<noteq> Some 1" by simp
  with r l show ?thesis
    by (intro exI [of _ st'] conjI)
qed

subsection \<open>Tape pointer\<close>

text \<open>
  Each handler keeps a well-formed tape well formed; in lazy mode \<^verbatim>\<open>ptr\<close> does too,
  growing the tape by one zero cell when the pointer reaches its length.
\<close>

lemma value_set_frame:
  assumes "value_set st v = Inr st'"
  shows "\<exists>ys. st' = st\<lparr>mem := ys\<rparr> \<and> length ys = length (mem st)"
  using assms
  by (auto simp: value_set_def py_setitem_def split: sum.splits option.splits)

lemma value_set_tape_ok:
  assumes "value_set st v = Inr st'" and "tape_ok st"
  shows "tape_ok st' \<and> strict st' = strict st"
  using value_set_frame [OF assms(1)] assms(2) by (auto simp: tape_ok_def)

lemma byte_tape_ok:
  assumes "byte st = Inr st'" and "tape_ok st"
  shows "tape_ok st' \<and> strict st' = strict st"
  using assms value_set_tape_ok
  by (auto simp: byte_def split: sum.splits)

lemma ptr_lazy:
  assumes "\<not> strict st" and "tape_ok st" and "ptr st = Inr st'"
  shows "tape_ok st' \<and> \<not> strict st'
     \<and> (if sr st' = memlen st then mem st' = mem st @ [0] \<and> memlen st' = memlen st + 1
         else mem st' = mem st \<and> memlen st' = memlen st)"
  using assms
  by (auto simp: ptr_def segflt_def tape_ok_def split: sum.splits if_splits)

lemma ptr_negative:
  assumes "memlen st = int (length (mem st))"
    and "instruction st None = Inr (Some CHR ''<'')"
    and "sr st - 1 < 0"
  shows "ptr st = Inl (BrainFuckingGoneError
           (Segfault (pc st) (Some CHR ''<'') ''negative data pointer value''))"
proof -
  let ?s = "st\<lparr>sr := sr st - 1\<rparr>"
  have "instruction ?s None = instruction st None"
    by (simp add: instruction_def Let_def)
  with assms show ?thesis
    by (simp add: ptr_def segflt_def)
qed

lemma loop_tape_ok:
  assumes "loop st = Inr st'" and "tape_ok st"
  shows "tape_ok st' \<and> strict st' = strict st"
proof -
  from assms(1) obtain st1 where
    s1: "(if loops st (pc st) = None then registerLoop st else Inr st) = Inr st1"
    and s2: "st' = st1 \<or> st' = snd (jump st1 (loops st1 (pc st1)))"
    by (auto simp: loop_def split: sum.splits if_splits)
  have f: "sr st1 = sr st \<and> mem st1 = mem st \<and> memlen st1 = memlen st \<and> strict st1 = strict st"
  proof (cases "loops st (pc st) = None")
    case True
    with s1 registerLoop_frame [of st st1] show ?thesis by auto
  next
    case False
    with s1 show ?thesis by simp
  qed
  from s2 show ?thesis
  proof
    assume "st' = st1"
    with f assms(2) show ?thesis by (simp add: tape_ok_def)
  next
    assume "st' = snd (jump st1 (loops st1 (pc st1)))"
    with f assms(2) show ?thesis by (simp add: tape_ok_def jump_def Let_def)
  qed
qed

lemma inp_tape_ok:
  assumes "inp prompt isIns st = Inr (ok, st')" and "tape_ok st"
  shows "tape_ok st' \<and> strict st' = strict st \<and> debug st' = debug st"
  using assms
  by (auto simp: inp_def input_def inp_remain_def tape_ok_def Let_def
      split: if_splits sum.splits option.splits list.splits)

lemma inout_tape_ok:
  assumes "inout st = Inr (halt, st')" and "tape_ok st"
  shows "tape_ok st' \<and> strict st' = strict st"
proof -
  from assms(1) obtain c where c: "instruction st None = Inr c"
    by (auto simp: inout_def split: sum.splits)
  consider (out) "c = Some CHR ''.''" | (inp) "c \<noteq> Some CHR ''.''" "c = Some CHR '',''"
    | (other) "c \<noteq> Some CHR ''.''" "c \<noteq> Some CHR '',''"
    by blast
  then show ?thesis
  proof cases
    case out
    with assms c show ?thesis
      by (auto simp: inout_def tape_ok_def split: sum.splits option.splits if_splits)
  next
    case inp
    show ?thesis
    proof (cases "inp [CHR 0x0A, CHR ''?'', CHR ''>'', CHR '' ''] False st")
      case (Inl e)
      with assms(1) c inp show ?thesis by (simp add: inout_def)
    next
      case (Inr r)
      obtain ok st1 where r: "r = (ok, st1)" by (cases r)
      from inp_tape_ok [OF Inr [unfolded r] assms(2)]
      have t1: "tape_ok st1" "strict st1 = strict st" by simp_all
      show ?thesis
      proof (cases ok)
        case False
        with assms(1) c inp Inr r t1 show ?thesis by (simp add: inout_def)
      next
        case True
        with assms(1) c inp Inr r obtain v st2 where
          "value_set st1 v = Inr st2" "st' = st2\<lparr>buf := None\<rparr>"
          by (auto simp: inout_def split: sum.splits)
        with value_set_tape_ok [of st1 v st2] t1 show ?thesis
          by (auto simp: tape_ok_def)
      qed
    qed
  next
    case other
    with assms c show ?thesis by (simp add: inout_def)
  qed
qed

lemma ignoreUntil_frame:
  "ignoreUntil st until = Inr st' \<Longrightarrow> \<exists>p. st' = st\<lparr>pc := p\<rparr>"
proof (induction st until rule: ignoreUntil.induct)
  case (1 st until)
  from "1.prems" obtain c where c: "instruction st None = Inr c"
    by (subst (asm) ignoreUntil.simps) (auto split: sum.splits)
  show ?case
  proof (cases "c \<noteq> Some until \<and> fst (jump st None)")
    case True
    with "1.prems" c have "ignoreUntil (snd (jump st None)) until = Inr st'"
      by (subst (asm) ignoreUntil.simps) simp
    with "1.IH" [OF c] True obtain p where "st' = (snd (jump st None))\<lparr>pc := p\<rparr>"
      by blast
    then have "st' = st\<lparr>pc := p\<rparr>" by (simp add: jump_def Let_def)
    then show ?thesis ..
  next
    case False
    with "1.prems" c have "st' = st\<lparr>pc := pc st\<rparr> \<or> st' = snd (jump st None)"
      by (subst (asm) ignoreUntil.simps) (auto split: if_splits)
    then have "st' = st\<lparr>pc := pc st\<rparr> \<or> st' = st\<lparr>pc := pc st + 1\<rparr>"
      by (simp add: jump_def Let_def)
    then show ?thesis by blast
  qed
qed

lemma translate_lazy:
  assumes "translate st = Inr (halt, st')" and "tape_ok st" and "\<not> strict st"
  shows "tape_ok st' \<and> \<not> strict st'"
proof -
  from assms(1) obtain c where c: "instruction st None = Inr c"
    by (auto simp: translate_def split: sum.splits)
  show ?thesis
  proof (cases c)
    case None
    with assms c show ?thesis by (simp add: translate_def)
  next
    case (Some x)
    show ?thesis
    proof (cases "x = CHR ''['' \<or> x = CHR '']''")
      case l: True
      with assms(1) c Some have "loop st = Inr st'"
        by (simp add: translate_def split: sum.splits)
      with loop_tape_ok [of st st'] assms(2,3) show ?thesis by simp
    next
      case nl: False
      show ?thesis
      proof (cases "x = CHR ''<'' \<or> x = CHR ''>''")
        case p: True
        with nl assms(1) c Some have "ptr st = Inr st'"
          by (simp add: translate_def split: sum.splits)
        with ptr_lazy [of st st'] assms(2,3) show ?thesis by simp
      next
        case np: False
        show ?thesis
        proof (cases "x = CHR ''-'' \<or> x = CHR ''+''")
          case b: True
          with nl np assms(1) c Some have "byte st = Inr st'"
            by (simp add: translate_def split: sum.splits)
          with byte_tape_ok [of st st'] assms(2,3) show ?thesis by simp
        next
          case nb: False
          show ?thesis
          proof (cases "x = CHR '','' \<or> x = CHR ''.''")
            case io: True
            with nl np nb assms(1) c Some have "inout st = Inr (halt, st')"
              by (simp add: translate_def)
            with inout_tape_ok [of st halt st'] assms(2,3) show ?thesis by simp
          next
            case nio: False
            show ?thesis
            proof (cases "x = CHR ''#'' \<or> x = CHR 0x0A")
              case ig: True
              with nl np nb nio assms(1) c Some
              have "ignoreUntil st (CHR 0x0A) = Inr st'"
                by (simp add: translate_def split: sum.splits)
              from ignoreUntil_frame [OF this] obtain q where "st' = st\<lparr>pc := q\<rparr>" ..
              with assms(2,3) show ?thesis by (simp add: tape_ok_def)
            next
              case nig: False
              with nl np nb nio assms c Some show ?thesis by (simp add: translate_def)
            qed
          qed
        qed
      qed
    qed
  qed
qed

lemma execute_loop_lazy:
  "execute_loop n st = Some (Inr st') \<Longrightarrow> tape_ok st \<Longrightarrow> \<not> strict st
     \<Longrightarrow> tape_ok st' \<and> \<not> strict st'"
proof (induction n arbitrary: st)
  case 0
  then show ?case by simp
next
  case (Suc n)
  from Suc.prems(1) obtain halt st1 where t: "translate st = Inr (halt, st1)"
    by (auto split: sum.splits)
  from translate_lazy [OF t Suc.prems(2,3)] have i1: "tape_ok st1" "\<not> strict st1"
    by simp_all
  show ?case
  proof (cases halt)
    case True
    with Suc.prems(1) t i1 show ?thesis by simp
  next
    case False
    with Suc.prems(1) t obtain st2 where d: "dbg False st1 = Inr st2"
      by (auto split: sum.splits)
    from dbg_frame [OF d] obtain k tr where "st2 = st1\<lparr>count := k, stderr := tr\<rparr>"
      by auto
    with i1 have i3: "tape_ok (snd (jump st2 None))" "\<not> strict (snd (jump st2 None))"
      by (simp_all add: tape_ok_def jump_def Let_def)
    show ?thesis
    proof (cases "fst (jump st2 None)")
      case True
      with Suc.prems(1) t False d
      have "execute_loop n (snd (jump st2 None)) = Some (Inr st')" by simp
      from Suc.IH [OF this i3] show ?thesis .
    next
      case nf: False
      with Suc.prems(1) t False d have "st' = snd (jump st2 None)" by simp
      with i3 show ?thesis by simp
    qed
  qed
qed

lemma ptr_frame:
  assumes "ptr st = Inr st'"
  shows "ins st' = ins st \<and> inslen st' = inslen st \<and> pc st' = pc st"
  using assms
  by (auto simp: ptr_def segflt_def split: sum.splits if_splits)

text \<open>
  A program of pointer moves only always comes to an end, with a result or an error:
  as many rounds as there are symbols left suffice.
\<close>

lemma pointer_moves_terminate:
  assumes "ins st = Some prog" and "inslen st = int (length prog)" and "0 \<le> pc st"
    and "\<forall>i. nat (pc st) \<le> i \<and> i < length prog \<longrightarrow> prog ! i = CHR ''<'' \<or> prog ! i = CHR ''>''"
    and "0 < n" and "inslen st - pc st \<le> int n"
  shows "execute_loop n st \<noteq> None"
  using assms
proof (induction n arbitrary: st)
  case 0
  then show ?case by simp
next
  case (Suc n)
  show ?case
  proof (cases "pc st < inslen st")
    case False
    then have "instruction st None = Inr None"
      by (simp add: instruction_def)
    then have t: "translate st = Inr (False, st)"
      by (simp add: translate_def)
    show ?thesis
    proof (cases "dbg False st")
      case (Inl e)
      with t show ?thesis by simp
    next
      case (Inr st2)
      from dbg_frame [OF Inr] obtain k tr where "st2 = st\<lparr>count := k, stderr := tr\<rparr>"
        by auto
      with False have "\<not> fst (jump st2 None)"
        by (simp add: jump_def Let_def)
      with t Inr show ?thesis by simp
    qed
  next
    case True
    with Suc.prems(1,2,3) have i: "instruction st None = Inr (Some (prog ! nat (pc st)))"
      by (simp add: instruction_def py_getitem_def py_index_def)
    from True Suc.prems(2,3,4) have c: "prog ! nat (pc st) = CHR ''<'' \<or> prog ! nat (pc st) = CHR ''>''"
      by auto
    show ?thesis
    proof (cases "ptr st")
      case (Inl e)
      with i c have "translate st = Inl e"
        by (auto simp: translate_def)
      then show ?thesis by simp
    next
      case (Inr st1)
      with i c have t: "translate st = Inr (False, st1)"
        by (auto simp: translate_def)
      from ptr_frame [OF Inr] have f1: "ins st1 = ins st" "inslen st1 = inslen st" "pc st1 = pc st"
        by simp_all
      show ?thesis
      proof (cases "dbg False st1")
        case (Inl e)
        with t show ?thesis by simp
      next
        case d: (Inr st2)
        from dbg_frame [OF d] obtain k tr where "st2 = st1\<lparr>count := k, stderr := tr\<rparr>"
          by auto
        with f1 have f2: "ins (snd (jump st2 None)) = ins st"
            "inslen (snd (jump st2 None)) = inslen st"
            "pc (snd (jump st2 None)) = pc st + 1"
            "fst (jump st2 None) = (pc st + 1 < inslen st)"
          by (simp_all add: jump_def Let_def)
        show ?thesis
        proof (cases "fst (jump st2 None)")
          case False
          with t d show ?thesis by simp
        next
          case nxt: True
          with f2 Suc.prems(6) have n: "0 < n" "inslen (snd (jump st2 None)) - pc (snd (jump st2 None)) \<le> int n"
            by simp_all
          have "execute_loop n (snd (jump st2 None)) \<noteq> None"
          proof (rule Suc.IH [OF _ _ _ _ n])
            show "ins (snd (jump st2 None)) = Some prog"
              using f2 Suc.prems(1) by simp
            show "inslen (snd (jump st2 None)) = int (length prog)"
              using f2 Suc.prems(2) by simp
            show "0 \<le> pc (snd (jump st2 None))"
              using f2 Suc.prems(3) by simp
            show "\<forall>i. nat (pc (snd (jump st2 None))) \<le> i \<and> i < length prog \<longrightarrow>
                    prog ! i = CHR ''<'' \<or> prog ! i = CHR ''>''"
              using f2 Suc.prems(3,4) by (simp add: nat_add_distrib)
          qed
          with t d nxt show ?thesis by simp
        qed
      qed
    qed
  qed
qed

text \<open>
  What a pointer move does, as an equation. In lazy mode \<^verbatim>\<open>>\<close> always succeeds on a
  well-formed tape: the pointer goes up by one, and the tape gets one more zero cell
  exactly when the new pointer is the old length. \<^verbatim>\<open><\<close> above cell 0 succeeds in either
  mode and only lowers the pointer.
\<close>

lemma ptr_right_lazy:
  assumes "tape_ok st" and "\<not> strict st" and "instruction st None = Inr (Some CHR ''>'')"
  shows "ptr st =
           Inr (if sr st + 1 = memlen st
                then st\<lparr>sr := sr st + 1, mem := mem st @ [0], memlen := memlen st + 1\<rparr>
                else st\<lparr>sr := sr st + 1\<rparr>)"
  using assms by (auto simp: ptr_def segflt_def tape_ok_def)

lemma ptr_left:
  assumes "tape_ok st" and "instruction st None = Inr (Some CHR ''<'')" and "0 < sr st"
  shows "ptr st = Inr (st\<lparr>sr := sr st - 1\<rparr>)"
  using assms by (auto simp: ptr_def segflt_def tape_ok_def)

text \<open>
  Claim C6. In lazy mode, from a well-formed tape (pointer within the tape, \<^verbatim>\<open>memlen\<close> its
  length): every run of the execution loop that ends without raising ends with a
  well-formed tape, so \<open>0 \<le> sr < memlen\<close> after any sequence of pointer moves. A \<^verbatim>\<open>>\<close>
  always succeeds there and moves the pointer up by one; the tape grows by exactly one
  zero cell when the new pointer would be the old length, and is left alone otherwise.
  A \<^verbatim>\<open><\<close> above cell 0 lowers the pointer by one, in either mode. Any successful move
  keeps the tape well formed. In either mode, a \<^verbatim>\<open><\<close> that makes the pointer negative
  raises the Segfault error with "negative data pointer value".
\<close>

theorem pointer_invariant:
  "(tape_ok st \<and> \<not> strict st \<and> execute_loop n st = Some (Inr st') \<longrightarrow> tape_ok st')
   \<and> (tape_ok st \<and> \<not> strict st \<and> instruction st None = Inr (Some CHR ''>'') \<longrightarrow>
        ptr st =
          Inr (if sr st + 1 = memlen st
               then st\<lparr>sr := sr st + 1, mem := mem st @ [0], memlen := memlen st + 1\<rparr>
               else st\<lparr>sr := sr st + 1\<rparr>))
   \<and> (tape_ok st \<and> instruction st None = Inr (Some CHR ''<'') \<and> 0 < sr st \<longrightarrow>
        ptr st = Inr (st\<lparr>sr := sr st - 1\<rparr>))
   \<and> (tape_ok st \<and> \<not> strict st \<and> ptr st = Inr st'' \<longrightarrow>
        tape_ok st'' \<and>
        (if sr st'' = memlen st then mem st'' = mem st @ [0] \<and> memlen st'' = memlen st + 1
         else mem st'' = mem st \<and> memlen st'' = memlen st))
   \<and> (memlen st = int (length (mem st)) \<and> instruction st None = Inr (Some CHR ''<'')
        \<and> sr st - 1 < 0 \<longrightarrow>
        ptr st = Inl (BrainFuckingGoneError
           (Segfault (pc st) (Some CHR ''<'') ''negative data pointer value'')))"
proof (intro conjI impI)
  assume "tape_ok st \<and> \<not> strict st \<and> execute_loop n st = Some (Inr st')"
  then show "tape_ok st'"
    using execute_loop_lazy [of n st st'] by simp
next
  assume "tape_ok st \<and> \<not> strict st \<and> instruction st None = Inr (Some CHR ''>'')"
  then show "ptr st =
          Inr (if sr st + 1 = memlen st
               then st\<lparr>sr := sr st + 1, mem := mem st @ [0], memlen := memlen st + 1\<rparr>
               else st\<lparr>sr := sr st + 1\<rparr>)"
    using ptr_right_lazy [of st] by simp
next
  assume "tape_ok st \<and> instruction st None = Inr (Some CHR ''<'') \<and> 0 < sr st"
  then show "ptr st = Inr (st\<lparr>sr := sr st - 1\<rparr>)"
    using ptr_left [of st] by simp
next
  assume a: "tape_ok st \<and> \<not> strict st \<and> ptr st = Inr st''"
  then show "tape_ok st''"
    using ptr_lazy [of st st''] by simp
  from a show "if sr st'' = memlen st
        then mem st'' = mem st @ [0] \<and> memlen st'' = memlen st + 1
        else mem st'' = mem st \<and> memlen st'' = memlen st"
    using ptr_lazy [of st st''] by simp
next
  assume "memlen st = int (length (mem st)) \<and> instruction st None = Inr (Some CHR ''<'')
        \<and> sr st - 1 < 0"
  then show "ptr st = Inl (BrainFuckingGoneError
           (Segfault (pc st) (Some CHR ''<'') ''negative data pointer value''))"
    using ptr_negative [of st] by simp
qed

theorem pointer_invariant_witness:
  "tape_ok (batch_start False False False ''>><'' (init []))
   \<and> \<not> strict (batch_start False False False ''>><'' (init []))
   \<and> (\<exists>st'. execute_loop 3 (batch_start False False False ''>><'' (init [])) = Some (Inr st')
         \<and> tape_ok st' \<and> sr st' = 1 \<and> mem st' = [0, 0, 0])
   \<and> ptr (batch_start False False False ''>><'' (init [])) =
       Inr ((batch_start False False False ''>><'' (init []))\<lparr>sr := 1, mem := [0, 0], memlen := 2\<rparr>)
   \<and> tape_ok ((batch_start False False False ''>><'' (init []))\<lparr>sr := 1, mem := [0, 0], memlen := 2\<rparr>)
   \<and> ptr ((batch_start False False False ''>><'' (init []))\<lparr>mem := [0, 0], memlen := 2\<rparr>) =
       Inr ((batch_start False False False ''>><'' (init []))\<lparr>mem := [0, 0], memlen := 2, sr := 1\<rparr>)
   \<and> ptr ((batch_start False False False ''>><'' (init []))\<lparr>sr := 1, mem := [0, 0], memlen := 2, pc := 2\<rparr>) =
       Inr ((batch_start False False False ''>><'' (init []))\<lparr>sr := 0, mem := [0, 0], memlen := 2, pc := 2\<rparr>)
   \<and> ptr (batch_start False False False ''<'' (init [])) =
       Inl (BrainFuckingGoneError (Segfault 0 (Some CHR ''<'') ''negative data pointer value''))"
proof -
  let ?a = "batch_start False False False ''>><'' (init [])"
  let ?a1 = "?a\<lparr>sr := 1, mem := [0, 0], memlen := 2\<rparr>"
  let ?g = "?a\<lparr>mem := [0, 0], memlen := 2\<rparr>"
  let ?c = "?a\<lparr>sr := 1, mem := [0, 0], memlen := 2, pc := 2\<rparr>"
  let ?b = "batch_start False False False ''<'' (init [])"
  have a: "tape_ok ?a" "\<not> strict ?a" "instruction ?a None = Inr (Some CHR ''>'')"
      "sr ?a + 1 = memlen ?a"
    by (simp_all add: tape_ok_def bf_defs)
  have g: "tape_ok ?g" "\<not> strict ?g" "instruction ?g None = Inr (Some CHR ''>'')"
      "sr ?g + 1 \<noteq> memlen ?g"
    by (simp_all add: tape_ok_def bf_defs)
  have c: "tape_ok ?c" "instruction ?c None = Inr (Some CHR ''<'')" "0 < sr ?c"
    by (simp_all add: tape_ok_def bf_defs)
  have "\<exists>st'. execute_loop 3 ?a = Some (Inr st') \<and> sr st' = 1 \<and> mem st' = [0, 0, 0]"
    by (simp add: bf_defs numeral_3_eq_3)
  then obtain st' where e: "execute_loop 3 ?a = Some (Inr st')" "sr st' = 1" "mem st' = [0, 0, 0]"
    by (elim exE conjE)
  have b: "memlen ?b = int (length (mem ?b))" "instruction ?b None = Inr (Some CHR ''<'')"
      "sr ?b - 1 < 0" "pc ?b = 0"
    by (simp_all add: bf_defs)
  note inv = pointer_invariant [of ?a 3 st' ?a1]
  from inv a(1,2) e(1) have 1: "tape_ok st'"
    by (elim conjE) (simp only: simp_thms)
  from inv a have "ptr ?a = Inr (?a\<lparr>sr := sr ?a + 1, mem := mem ?a @ [0], memlen := memlen ?a + 1\<rparr>)"
    by (elim conjE) (simp only: simp_thms if_True)
  then have 2: "ptr ?a = Inr ?a1"
    by (simp add: bf_defs)
  from inv a(1,2) 2 have 3: "tape_ok ?a1"
    by (elim conjE) (simp only: simp_thms)
  from pointer_invariant [of ?g 0 ?g ?g] g
  have "ptr ?g = Inr (?g\<lparr>sr := sr ?g + 1\<rparr>)"
    by (elim conjE) (simp only: simp_thms if_False)
  then have 4: "ptr ?g = Inr (?a\<lparr>mem := [0, 0], memlen := 2, sr := 1\<rparr>)"
    by (simp add: bf_defs)
  from pointer_invariant [of ?c 0 ?c ?c] c
  have "ptr ?c = Inr (?c\<lparr>sr := sr ?c - 1\<rparr>)"
    by (elim conjE) (simp only: simp_thms)
  then have 5: "ptr ?c = Inr (?a\<lparr>sr := 0, mem := [0, 0], memlen := 2, pc := 2\<rparr>)"
    by simp
  from pointer_invariant [of ?b 0 ?b ?b] b(1,2,3)
  have "ptr ?b = Inl (BrainFuckingGoneError
          (Segfault (pc ?b) (Some CHR ''<'') ''negative data pointer value''))"
    by (elim conjE) (simp only: simp_thms)
  with b(4) have 6: "ptr ?b = Inl (BrainFuckingGoneError
          (Segfault 0 (Some CHR ''<'') ''negative data pointer value''))"
    by simp
  from e 1 have 7: "\<exists>st'. execute_loop 3 ?a = Some (Inr st')
         \<and> tape_ok st' \<and> sr st' = 1 \<and> mem st' = [0, 0, 0]"
    by (intro exI [of _ st'] conjI)
  from a(1,2) 7 2 3 4 5 6 show ?thesis
    by (intro conjI)
qed

subsection \<open>Input\<close>

text \<open>
  Claim C9. At a \<^verbatim>\<open>,\<close> with no buffered remainder and the input at end of file,
  \<^verbatim>\<open>inout\<close> raises nothing, returns the stop signal and leaves the object (so the
  current cell) as it is; the execution loop ends there; and \<^verbatim>\<open>execute\<close> then does what
  it does after every loop: \<^verbatim>\<open>dbg(True)\<close>, which counts one more step and, when
  debugging, prints the summary, followed by \<^verbatim>\<open>reset\<close>.
\<close>

theorem input_eof_halts:
  assumes "instruction st None = Inr (Some CHR '','')"
    and "remain st = None"
    and "stdin st = []"
  shows "inout st = Inr (True, st)
     \<and> execute_loop (Suc n) st = Some (Inr st)
     \<and> dbg True st = Inr (st\<lparr>count := count st + 1,
           stderr := stderr st @ (if debug st then [DoneWith (inslen st) (count st + 1) (memlen st)] else [])\<rparr>)
     \<and> execute (Suc n) False st = Some (Inr (reset False (st\<lparr>count := count st + 1,
           stderr := stderr st @ (if debug st then [DoneWith (inslen st) (count st + 1) (memlen st)] else [])\<rparr>)))"
proof -
  have io: "inout st = Inr (True, st)"
    using assms by (simp add: inout_def inp_def input_def codes_def)
  have tr: "translate st = Inr (True, st)"
    using assms(1) io by (simp add: translate_def)
  have lp: "execute_loop (Suc n) st = Some (Inr st)"
    using tr by simp
  have d: "dbg True st = Inr (st\<lparr>count := count st + 1,
           stderr := stderr st @ (if debug st then [DoneWith (inslen st) (count st + 1) (memlen st)] else [])\<rparr>)"
    by (simp add: dbg_def Let_def)
  have "execute (Suc n) False st = Some (Inr (reset False (st\<lparr>count := count st + 1,
           stderr := stderr st @ (if debug st then [DoneWith (inslen st) (count st + 1) (memlen st)] else [])\<rparr>)))"
    unfolding execute_def lp using d by simp
  with io lp d show ?thesis by simp
qed

theorem input_eof_halts_witness:
  "inout (batch_start False True False '','' (init [])) =
     Inr (True, batch_start False True False '','' (init []))
   \<and> (\<exists>st'. execute (Suc 0) False (batch_start False True False '','' (init [])) = Some (Inr st')
         \<and> stderr st' = [DoneWith 1 1 1])"
proof -
  let ?a = "batch_start False True False '','' (init [])"
  have a: "instruction ?a None = Inr (Some CHR '','')" "remain ?a = None" "stdin ?a = []"
    by (simp_all add: bf_defs)
  from input_eof_halts [OF a, of 0] show ?thesis
    by (simp add: bf_defs)
qed

text \<open>
  Claim C10. At a \<^verbatim>\<open>,\<close> with no buffered remainder, an empty line from the input makes
  \<^verbatim>\<open>inp\<close> index position 0 of the empty remainder: IndexError, which nothing catches, so
  \<^verbatim>\<open>inout\<close> and \<^verbatim>\<open>execute\<close> raise it too, rather than reading another line or stopping.
\<close>

theorem inout_empty_line:
  assumes "instruction st None = Inr (Some CHR '','')"
    and "remain st = None"
    and "stdin st = [] # rest"
  shows "inp prompt False st = Inl IndexError \<and> inout st = Inl IndexError
     \<and> execute (Suc n) sh st = Some (Inl IndexError)"
proof -
  have i: "inp prompt False st = Inl IndexError" for prompt
    using assms by (simp add: inp_def input_def inp_remain_def py_getitem_def py_index_def)
  then have io: "inout st = Inl IndexError"
    using assms(1) by (simp add: inout_def)
  then have "translate st = Inl IndexError"
    using assms(1) by (simp add: translate_def)
  then have "execute (Suc n) sh st = Some (Inl IndexError)"
    by (simp add: execute_def)
  with i io show ?thesis by simp
qed

theorem inout_empty_line_witness:
  "inout (batch_start False False False '','' (init [[]])) = Inl IndexError
   \<and> execute (Suc 0) False (batch_start False False False '','' (init [[]])) = Some (Inl IndexError)"
proof -
  let ?a = "batch_start False False False '','' (init [[]])"
  have a: "instruction ?a None = Inr (Some CHR '','')" "remain ?a = None" "stdin ?a = [] # []"
    by (simp_all add: bf_defs)
  from inout_empty_line [OF a, of _ 0 False] show ?thesis
    by simp
qed

subsection \<open>Runs\<close>

text \<open>
  Claim C5. The batch run of \<^verbatim>\<open>+++.\<close> with tracing, given at least four rounds, ends
  without error; the output accumulated is the one character of code 3; the trace is the
  four step lines and the summary, whose arguments are 4 instructions, 5 steps and 1
  byte: the call of \<^verbatim>\<open>dbg\<close> that prints the summary counts as a step too.
\<close>

theorem summary_counts_report:
  "\<exists>st'. execute (Suc (Suc (Suc (Suc n)))) False
            (batch_start False True False ''+++.'' (init [])) = Some (Inr st')
     \<and> stdout st' = Some [3] \<and> console st' = []
     \<and> stderr st' = [StepLine 0 CHR ''+'' 0 1, StepLine 1 CHR ''+'' 0 2,
          StepLine 2 CHR ''+'' 0 3, StepLine 3 CHR ''.'' 0 3, DoneWith 4 5 1]"
  by (simp add: bf_defs)

text \<open>
  What \<^verbatim>\<open>shell\<close> does with a line: the prompt is written, the line is appended to the
  program (the empty string for None), \<^verbatim>\<open>inslen\<close> grows by its length and the buffer is
  dropped. Nothing else changes, the counter in particular.
\<close>

lemma shell_appends:
  assumes "stdin st = l # ls"
  shows "shell st =
           Inr (Some ((case ins st of Some p \<Rightarrow> p | None \<Rightarrow> []) @ l),
                st\<lparr>console := console st @ codes '' > '', stdin := ls,
                   inslen := inslen st + int (length l), buf := None\<rparr>)"
  using assms by (simp add: shell_def inp_def input_def Let_def)

text \<open>
  The scenario of the three lines \<^verbatim>\<open>+\<close>, \<^verbatim>\<open>+\<close> and \<^verbatim>\<open>.\<close>: after each line the program is
  the lines so far, the counter is at its end, and the tape and pointer are those the
  earlier lines left; after the third line the console holds the three prompts and then
  the character of code 2 (followed by the newline of debug mode). The \<^verbatim>\<open>reset\<close> after
  each execution drops nothing but the line buffer in persistent mode.
\<close>

lemma shell_lines_continue:
  "(\<exists>st1. run_shell 1 (Suc n) (run_start True False False False (init [''+'', ''+'', ''.'']))
            = Some (Inr st1)
      \<and> ins st1 = Some ''+'' \<and> pc st1 = 1 \<and> inslen st1 = 1 \<and> mem st1 = [1] \<and> sr st1 = 0
      \<and> console st1 = codes '' > '')
   \<and> (\<exists>st2. run_shell 2 (Suc n) (run_start True False False False (init [''+'', ''+'', ''.'']))
            = Some (Inr st2)
      \<and> ins st2 = Some ''++'' \<and> pc st2 = 2 \<and> inslen st2 = 2 \<and> mem st2 = [2] \<and> sr st2 = 0
      \<and> console st2 = codes '' >  > '')
   \<and> (\<exists>st3. run_shell 3 (Suc n) (run_start True False False False (init [''+'', ''+'', ''.'']))
            = Some (Inr st3)
      \<and> ins st3 = Some ''++.'' \<and> pc st3 = 3 \<and> inslen st3 = 3 \<and> mem st3 = [2] \<and> sr st3 = 0
      \<and> console st3 = codes '' >  >  > '' @ [2, 10])
   \<and> reset False (st\<lparr>keep := True\<rparr>) = st\<lparr>keep := True, buf := None\<rparr>"
  by (simp add: bf_defs numeral_2_eq_2 numeral_3_eq_3)

text \<open>
  An execution that starts with the counter at or past the end of the buffer still runs
  one round: nothing is dispatched, and the \<^verbatim>\<open>jump\<close> of the round moves the counter one
  further.
\<close>

lemma execute_loop_past_end:
  assumes "inslen st \<le> pc st"
  shows "execute_loop (Suc n) st = Some (Inr (st\<lparr>count := count st + 1, pc := pc st + 1\<rparr>))"
proof -
  from assms have i: "instruction st None = Inr None"
    by (simp add: instruction_def)
  then have t: "translate st = Inr (False, st)"
    by (simp add: translate_def)
  have "instruction (st\<lparr>count := count st + 1\<rparr>) None = Inr None"
    using assms by (simp add: instruction_def)
  then have d: "dbg False st = Inr (st\<lparr>count := count st + 1\<rparr>)"
    by (simp add: dbg_def Let_def)
  from assms have j: "jump (st\<lparr>count := count st + 1\<rparr>) None =
      (False, st\<lparr>count := count st + 1, pc := pc st + 1\<rparr>)"
    by (simp add: jump_def Let_def)
  from t d j show ?thesis by simp
qed

text \<open>
  Claim C8. The executions of the shell do not always resume where the previous buffer
  ended. An execution started at or past the end of the buffer, as the one of an empty
  line is, moves the counter one further. So after the lines \<^verbatim>\<open>+\<close> and the empty line the
  counter is 2 with a buffer of length 1; the lines \<^verbatim>\<open>+\<close>, empty, \<^verbatim>\<open>+\<close>, \<^verbatim>\<open>.\<close> end with the
  program \<^verbatim>\<open>++.\<close>, the counter at 4, the cell at 1 and nothing but the four prompts on the
  console: the second \<^verbatim>\<open>+\<close> and the \<^verbatim>\<open>.\<close> are skipped. A comment symbol does the same:
  after the line \<^verbatim>\<open>+#\<close> the line \<^verbatim>\<open>+.\<close> writes the character of code 1, its \<^verbatim>\<open>+\<close> skipped.
  (The scenario \<^verbatim>\<open>+\<close>, \<^verbatim>\<open>+\<close>, \<^verbatim>\<open>.\<close> itself writes the character of code 2:
  \<open>shell_lines_continue\<close>.)
\<close>

theorem shell_empty_line_skips:
  "(inslen st \<le> pc st \<longrightarrow>
      execute_loop (Suc n) st = Some (Inr (st\<lparr>count := count st + 1, pc := pc st + 1\<rparr>)))
   \<and> (\<exists>st2. run_shell 2 (Suc n) (run_start True False False False (init [''+'', []]))
            = Some (Inr st2)
      \<and> ins st2 = Some ''+'' \<and> inslen st2 = 1 \<and> pc st2 = 2)
   \<and> (\<exists>st4. run_shell 4 (Suc n)
              (run_start True False False False (init [''+'', [], ''+'', ''.'']))
            = Some (Inr st4)
      \<and> ins st4 = Some ''++.'' \<and> inslen st4 = 3 \<and> pc st4 = 4 \<and> mem st4 = [1]
      \<and> console st4 = codes '' >  >  >  > '')
   \<and> (\<exists>st2. run_shell 2 (Suc (Suc n)) (run_start True False False False (init [''+#'', ''+.'']))
            = Some (Inr st2)
      \<and> ins st2 = Some ''+#+.'' \<and> inslen st2 = 4 \<and> pc st2 = 4 \<and> mem st2 = [1]
      \<and> console st2 = codes '' >  > '' @ [1, 10])"
proof (intro conjI impI)
  assume "inslen st \<le> pc st"
  then show "execute_loop (Suc n) st = Some (Inr (st\<lparr>count := count st + 1, pc := pc st + 1\<rparr>))"
    by (rule execute_loop_past_end)
next
  show "\<exists>st2. run_shell 2 (Suc n) (run_start True False False False (init [''+'', []]))
            = Some (Inr st2)
      \<and> ins st2 = Some ''+'' \<and> inslen st2 = 1 \<and> pc st2 = 2"
    by (simp add: bf_defs numeral_2_eq_2)
next
  show "\<exists>st4. run_shell 4 (Suc n)
              (run_start True False False False (init [''+'', [], ''+'', ''.'']))
            = Some (Inr st4)
      \<and> ins st4 = Some ''++.'' \<and> inslen st4 = 3 \<and> pc st4 = 4 \<and> mem st4 = [1]
      \<and> console st4 = codes '' >  >  >  > ''"
    by (simp add: bf_defs eval_nat_numeral)
next
  show "\<exists>st2. run_shell 2 (Suc (Suc n)) (run_start True False False False (init [''+#'', ''+.'']))
            = Some (Inr st2)
      \<and> ins st2 = Some ''+#+.'' \<and> inslen st2 = 4 \<and> pc st2 = 4 \<and> mem st2 = [1]
      \<and> console st2 = codes '' >  > '' @ [1, 10]"
    by (simp add: bf_defs numeral_2_eq_2 ignoreUntil.simps)
qed

theorem shell_empty_line_skips_witness:
  "inslen (run_start True False False False (init [])) \<le> pc (run_start True False False False (init []))
   \<and> (\<exists>st1. execute_loop (Suc 0) (run_start True False False False (init [])) = Some (Inr st1)
        \<and> pc st1 = 1 \<and> inslen st1 = 0)
   \<and> (\<exists>st4. run_shell 4 (Suc 0)
              (run_start True False False False (init [''+'', [], ''+'', ''.'']))
            = Some (Inr st4)
      \<and> inslen st4 = 3 \<and> pc st4 = 4 \<and> mem st4 = [1]
      \<and> console st4 = codes '' >  >  >  > '')"
proof -
  let ?s = "run_start True False False False (init [])"
  have h: "inslen ?s \<le> pc ?s"
    by (simp add: bf_defs)
  note t = shell_empty_line_skips [of ?s 0]
  from t h have "execute_loop (Suc 0) ?s = Some (Inr (?s\<lparr>count := count ?s + 1, pc := pc ?s + 1\<rparr>))"
    by (elim conjE) (simp only: simp_thms)
  then have 1: "\<exists>st1. execute_loop (Suc 0) ?s = Some (Inr st1) \<and> pc st1 = 1 \<and> inslen st1 = 0"
    by (simp add: bf_defs)
  from t obtain st4 where
    "run_shell 4 (Suc 0) (run_start True False False False (init [''+'', [], ''+'', ''.'']))
       = Some (Inr st4)"
    "inslen st4 = 3" "pc st4 = 4" "mem st4 = [1]" "console st4 = codes '' >  >  >  > ''"
    by (elim exE conjE)
  then have 2: "\<exists>st4. run_shell 4 (Suc 0)
              (run_start True False False False (init [''+'', [], ''+'', ''.'']))
            = Some (Inr st4)
      \<and> inslen st4 = 3 \<and> pc st4 = 4 \<and> mem st4 = [1]
      \<and> console st4 = codes '' >  >  >  > ''"
    by (intro exI [of _ st4] conjI)
  from h 1 2 show ?thesis
    by (intro conjI)
qed

end
